theory Spec2Isabelle
  imports Main
begin

section \<open>Sentence segmenter\<close>

text \<open>
  \<^verbatim>\<open>split_into_sentences\<close> of \<^verbatim>\<open>app.py\<close> (lines 56-70). A text is a list of
  characters; a \<^typ>\<open>char\<close> stands for one code point below 256. The characters that
  Python's \<^verbatim>\<open>str.strip()\<close> removes are those with \<^verbatim>\<open>str.isspace()\<close>: below 256
  these are the code points 9-13, 28-32, 133 and 160.
\<close>

definition isspace :: "char \<Rightarrow> bool" where
  "isspace c =
     (let n = (of_char c :: nat)
      in (9 \<le> n \<and> n \<le> 13) \<or> (28 \<le> n \<and> n \<le> 32) \<or> n = 133 \<or> n = 160)"

definition strip :: "string \<Rightarrow> string" where
  "strip s = rev (dropWhile isspace (rev (dropWhile isspace s)))"

text \<open>The test \<^verbatim>\<open>char in '.!?'\<close>.\<close>

definition terminal :: "char \<Rightarrow> bool" where
  "terminal c = (c \<in> set ''.!?'')"

text \<open>
  The \<^verbatim>\<open>for char in text\<close> loop, with its two mutable variables \<^verbatim>\<open>sentences\<close> and
  \<^verbatim>\<open>current\<close> passed along. The source's second test \<^verbatim>\<open>len(current) > 0\<close> is kept.
\<close>

fun split_loop :: "string \<Rightarrow> string list \<Rightarrow> string \<Rightarrow> string list \<times> string" where
  "split_loop [] sentences current = (sentences, current)"
| "split_loop (c # cs) sentences current =
     (let current = current @ [c]
      in if terminal c \<and> length current > 0
         then split_loop cs (sentences @ [strip current]) []
         else split_loop cs sentences current)"

definition split_into_sentences :: "string \<Rightarrow> string list" where
  "split_into_sentences text =
     (case split_loop text [] [] of
        (sentences, current) \<Rightarrow>
          if current \<noteq> [] then sentences @ [strip current] else sentences)"

text \<open>
  Vocabulary for the reconstruction property: a padding is the pair of whitespace runs
  that \<^const>\<open>strip\<close> removed before and after one sentence; \<open>reinsert\<close> puts the
  paddings back around the sentences and concatenates.
\<close>

definition whitespace :: "string \<Rightarrow> bool" where
  "whitespace s = list_all isspace s"

definition paddings_ok :: "(string \<times> string) list \<Rightarrow> bool" where
  "paddings_ok pads = list_all (\<lambda>(l, r). whitespace l \<and> whitespace r) pads"

definition reinsert :: "(string \<times> string) list \<Rightarrow> string list \<Rightarrow> string" where
  "reinsert pads sentences = concat (map (\<lambda>((l, r), s). l @ s @ r) (zip pads sentences))"

section \<open>Data model\<close>

text \<open>
  A row of the corpus file (\<^verbatim>\<open>public/sampled_data.csv\<close>) with the three columns that
  \<^verbatim>\<open>main\<close> reads.
\<close>

record corpus_row =
  row_text_corrected :: string
  row_cefr :: string
  row_learner_id :: string

text \<open>The dictionary appended to \<^verbatim>\<open>processed_data\<close> (lines 385-391).\<close>

record annotation_unit =
  unit_text_corrected :: string
  unit_sentence :: string
  unit_sentence_index :: nat
  unit_cefr :: string
  unit_learner_id :: string

text \<open>The dictionary \<^verbatim>\<open>data\<close> built by \<^verbatim>\<open>save_annotation\<close> (lines 84-93).\<close>

record annotation_record =
  rec_annotator_id :: string
  rec_sentence :: string
  rec_target_tense :: string
  rec_notes :: string
  rec_cefr_level :: string
  rec_original_text :: string
  rec_learner_id :: string
  rec_created_at :: string

text \<open>
  The part of \<^verbatim>\<open>st.session_state\<close> that the annotator interface uses.
  \<^verbatim>\<open>filtered_data\<close> starts as \<^verbatim>\<open>None\<close> (line 339).
\<close>

record session_state =
  filtered_data :: "annotation_unit list option"
  current_index :: int
  session_annotator_id :: string

text \<open>
  The external annotation table. \<open>inserts\<close> logs every record handed to
  \<^verbatim>\<open>supabase.table("annotations").insert(data).execute()\<close>, in order, whether or not the
  call succeeded; \<open>annotations\<close> holds the records the table accepted.
\<close>

record store =
  inserts :: "annotation_record list"
  annotations :: "annotation_record list"

text \<open>Exceptions that leave \<^verbatim>\<open>main\<close> uncaught.\<close>

datatype py_error = ValueError | IndexError

text \<open>
  Messages shown to the user:
  \<^item> \<open>Error_select_cefr_level\<close>: \<^verbatim>\<open>st.error("Please select a CEFR level")\<close>
  \<^item> \<open>Success_data_loaded\<close>: \<^verbatim>\<open>st.success("Data loaded successfully!")\<close>
  \<^item> \<open>Warning_select_tense\<close>: \<^verbatim>\<open>st.warning("Please select a tense before saving.")\<close>
  \<^item> \<open>Error_select_valid_tense\<close>: \<^verbatim>\<open>st.error("Please select a valid tense before saving.")\<close>
  \<^item> \<open>Error_saving_annotation\<close>: \<^verbatim>\<open>st.error(f"Error saving annotation: ...")\<close>
  \<^item> \<open>Success_annotation_saved\<close>: \<^verbatim>\<open>st.success("Annotation saved!")\<close>
\<close>

datatype message =
    Error_select_cefr_level
  | Success_data_loaded
  | Warning_select_tense
  | Error_select_valid_tense
  | Error_saving_annotation
  | Success_annotation_saved

section \<open>Tense taxonomy\<close>

text \<open>The dictionary \<^verbatim>\<open>TENSE_CATEGORIES\<close> in insertion order (lines 20-51).\<close>

definition TENSE_CATEGORIES :: "(string \<times> string list) list" where
  "TENSE_CATEGORIES =
     [(''Simple Forms'',
         [''Present Simple'', ''Past Simple'', ''Future Simple (will)'',
          ''Future Simple (going to)'']),
      (''Continuous Forms'',
         [''Present Continuous'', ''Past Continuous'', ''Future Continuous'']),
      (''Perfect Forms'',
         [''Present Perfect'', ''Past Perfect'', ''Future Perfect'',
          ''Present Perfect Continuous'', ''Past Perfect Continuous'',
          ''Future Perfect Continuous'']),
      (''Modal Forms'',
         [''Modal Present (would/could/might/should)'',
          ''Modal Past (would have/could have)'']),
      (''Other Structures'',
         [''Conditional (if clause)'', ''To-infinitive'', ''Bare infinitive'',
          ''Gerund (-ing form)'', ''Multiple Verbs''])]"

definition TENSE_OPTIONS :: "string list" where
  "TENSE_OPTIONS = concat (map snd TENSE_CATEGORIES)"

text \<open>\<^verbatim>\<open>x.startswith(p)\<close>.\<close>

definition startswith :: "string \<Rightarrow> string \<Rightarrow> bool" where
  "startswith x p = (take (length p) x = p)"

text \<open>The options of the select box (lines 472-475): the empty choice, then each
  category's separator followed by its tenses.\<close>

definition tense_options :: "string list" where
  "tense_options =
     [[]] @ concat (map (\<lambda>(category, tenses).
        (''------ '' @ category @ '' ------'') # tenses) TENSE_CATEGORIES)"

text \<open>Lines 484-485: a selected category header counts as no selection.\<close>

definition skip_header :: "string \<Rightarrow> string" where
  "skip_header selected_tense =
     (if selected_tense \<noteq> [] \<and> startswith selected_tense ''------'' then []
      else selected_tense)"

section \<open>Corpus sampler\<close>

text \<open>
  \<^verbatim>\<open>DataFrame.sample(n=n)\<close> draws without replacement: it raises \<^verbatim>\<open>ValueError\<close> for a
  negative \<open>n\<close> and for an \<open>n\<close> above the number of rows, and otherwise takes the rows
  at the first \<open>n\<close> positions of a random permutation of the row positions. The
  random state is the parameter \<open>rng\<close>: \<open>rng m\<close> is the permutation it draws for
  \<open>m\<close> rows.
\<close>

definition rng_ok :: "(nat \<Rightarrow> nat list) \<Rightarrow> nat \<Rightarrow> bool" where
  "rng_ok rng m = (distinct (rng m) \<and> set (rng m) = {0..<m})"

definition sample :: "(nat \<Rightarrow> nat list) \<Rightarrow> int \<Rightarrow> 'a list \<Rightarrow> py_error + 'a list" where
  "sample rng n xs =
     (if n < 0 then Inl ValueError
      else if int (length xs) < n then Inl ValueError
      else Inr (map (\<lambda>i. xs ! i) (take (nat n) (rng (length xs)))))"

text \<open>Line 379:
  \<^verbatim>\<open>df[df['cefr'] == cefr_level].sample(n=min(sample_size, len(df)))\<close>.\<close>

definition sample_level ::
  "(nat \<Rightarrow> nat list) \<Rightarrow> corpus_row list \<Rightarrow> string \<Rightarrow> int \<Rightarrow> py_error + corpus_row list" where
  "sample_level rng df cefr_level sample_size =
     sample rng (min sample_size (int (length df)))
       (filter (\<lambda>row. row_cefr row = cefr_level) df)"

section \<open>Annotation unit builder\<close>

text \<open>The inner loop \<^verbatim>\<open>for idx, sentence in enumerate(sentences)\<close> (lines 384-391).\<close>

fun append_units ::
  "corpus_row \<Rightarrow> nat \<Rightarrow> string list \<Rightarrow> annotation_unit list \<Rightarrow> annotation_unit list" where
  "append_units row idx [] processed_data = processed_data"
| "append_units row idx (s # sentences) processed_data =
     append_units row (Suc idx) sentences
       (processed_data @
        [\<lparr>unit_text_corrected = row_text_corrected row,
          unit_sentence = s,
          unit_sentence_index = idx,
          unit_cefr = row_cefr row,
          unit_learner_id = row_learner_id row\<rparr>])"

text \<open>The outer loop \<^verbatim>\<open>for _, row in filtered_df.iterrows()\<close> (lines 382-391).\<close>

fun process_rows :: "corpus_row list \<Rightarrow> annotation_unit list \<Rightarrow> annotation_unit list" where
  "process_rows [] processed_data = processed_data"
| "process_rows (row # rows) processed_data =
     process_rows rows
       (append_units row 0 (split_into_sentences (row_text_corrected row)) processed_data)"

definition build_worklist :: "corpus_row list \<Rightarrow> annotation_unit list" where
  "build_worklist filtered_df = process_rows filtered_df []"

text \<open>The units that the specification expects of one row: one per sentence, indexed
  from 0 upwards.\<close>

definition units_of_row :: "corpus_row \<Rightarrow> annotation_unit list" where
  "units_of_row row =
     map (\<lambda>idx.
        \<lparr>unit_text_corrected = row_text_corrected row,
         unit_sentence = split_into_sentences (row_text_corrected row) ! idx,
         unit_sentence_index = idx,
         unit_cefr = row_cefr row,
         unit_learner_id = row_learner_id row\<rparr>)
       [0..<length (split_into_sentences (row_text_corrected row))]"

section \<open>Session navigator\<close>

text \<open>Lines 393-394: the built worklist is stored and the cursor reset.\<close>

definition load :: "annotation_unit list \<Rightarrow> session_state \<Rightarrow> session_state" where
  "load processed_data st = st\<lparr>filtered_data := Some processed_data, current_index := 0\<rparr>"

text \<open>
  The handler of the "Load Data" button (lines 371-395). \<open>df\<close> is what \<^verbatim>\<open>load_data()\<close>
  returned (\<open>None\<close> when reading the file failed). An exception of
  \<^verbatim>\<open>sample\<close> is not caught: the run ends there and the session state stays as it was.
\<close>

definition load_data_button ::
  "(nat \<Rightarrow> nat list) \<Rightarrow> corpus_row list option \<Rightarrow> string \<Rightarrow> int \<Rightarrow> session_state
     \<Rightarrow> py_error + (session_state \<times> message list)" where
  "load_data_button rng df cefr_level sample_size st =
     (if cefr_level = [] then Inr (st, [Error_select_cefr_level])
      else case df of
        None \<Rightarrow> Inr (st, [])
      | Some rows \<Rightarrow>
          (case sample_level rng rows cefr_level sample_size of
             Inl e \<Rightarrow> Inl e
           | Inr filtered_df \<Rightarrow>
               Inr (load (build_worklist filtered_df) st, [Success_data_loaded])))"

text \<open>The truth value of \<^verbatim>\<open>st.session_state.filtered_data\<close> (line 398): \<^verbatim>\<open>None\<close> and
  the empty list are both false.\<close>

definition loaded :: "session_state \<Rightarrow> bool" where
  "loaded st = (case filtered_data st of None \<Rightarrow> False | Some data \<Rightarrow> data \<noteq> [])"

text \<open>Python's \<^verbatim>\<open>data[i]\<close>: a negative index counts from the end, an index out of
  range raises \<^verbatim>\<open>IndexError\<close>.\<close>

definition getitem :: "'a list \<Rightarrow> int \<Rightarrow> py_error + 'a" where
  "getitem data i =
     (if 0 \<le> i \<and> i < int (length data) then Inr (data ! nat i)
      else if i < 0 \<and> - int (length data) \<le> i then Inr (data ! nat (int (length data) + i))
      else Inl IndexError)"

text \<open>
  Lines 534-540. \<^verbatim>\<open>st.rerun()\<close> ends the run, so the test of the Previous button is
  reached only when the Next button did not move the cursor.
\<close>

definition navigate ::
  "bool \<Rightarrow> bool \<Rightarrow> annotation_unit list \<Rightarrow> session_state \<Rightarrow> session_state" where
  "navigate next_button prev_button data st =
     (if next_button \<and> current_index st < int (length data) - 1
      then st\<lparr>current_index := current_index st + 1\<rparr>
      else if prev_button \<and> current_index st > 0
      then st\<lparr>current_index := current_index st - 1\<rparr>
      else st)"

text \<open>The cursor invariant of the specification.\<close>

definition cursor_ok :: "session_state \<Rightarrow> bool" where
  "cursor_ok st =
     (case filtered_data st of
        None \<Rightarrow> True
      | Some data \<Rightarrow>
          if data = [] then True
          else 0 \<le> current_index st \<and> current_index st < int (length data))"

section \<open>Annotation persister\<close>

text \<open>
  One call of \<^verbatim>\<open>insert(data).execute()\<close>. Whether the external table accepts a
  record is the parameter \<open>accepts\<close>; the result \<open>False\<close> stands for the exception
  raised on failure.
\<close>

definition insert_execute ::
  "(annotation_record \<Rightarrow> bool) \<Rightarrow> store \<Rightarrow> annotation_record \<Rightarrow> store \<times> bool" where
  "insert_execute accepts s data =
     (if accepts data
      then (s\<lparr>inserts := inserts s @ [data], annotations := annotations s @ [data]\<rparr>, True)
      else (s\<lparr>inserts := inserts s @ [data]\<rparr>, False))"

text \<open>
  \<^verbatim>\<open>save_annotation\<close> (lines 81-98). \<open>now\<close> is the value of
  \<^verbatim>\<open>datetime.now().isoformat()\<close> at the call. The result is the returned flag, the
  store after the call and the messages shown.
\<close>

definition save_annotation ::
  "(annotation_record \<Rightarrow> bool) \<Rightarrow> string \<Rightarrow> store \<Rightarrow>
     string \<Rightarrow> nat \<Rightarrow> string \<Rightarrow> string \<Rightarrow> string \<Rightarrow> string \<Rightarrow> string \<Rightarrow> string
     \<Rightarrow> bool \<times> store \<times> message list" where
  "save_annotation accepts now s text sentence_index tense cefr_level user_id notes
       original_text learner_id =
     (let data =
        \<lparr>rec_annotator_id = user_id,
         rec_sentence = text,
         rec_target_tense = tense,
         rec_notes = notes,
         rec_cefr_level = cefr_level,
         rec_original_text = original_text,
         rec_learner_id = learner_id,
         rec_created_at = now\<rparr>
      in case insert_execute accepts s data of
           (s', True) \<Rightarrow> (True, s', [])
         | (s', False) \<Rightarrow> (False, s', [Error_saving_annotation]))"

text \<open>Lines 519-532: the save attempt made when a form button was pressed.\<close>

definition save_step ::
  "(annotation_record \<Rightarrow> bool) \<Rightarrow> string \<Rightarrow> session_state \<Rightarrow> store \<Rightarrow> annotation_unit
     \<Rightarrow> string \<Rightarrow> string \<Rightarrow> store \<times> message list" where
  "save_step accepts now st s current_item selected_tense notes =
     (if selected_tense \<noteq> [] \<and> \<not> startswith selected_tense ''------''
      then
        (case save_annotation accepts now s
                (unit_sentence current_item)
                (unit_sentence_index current_item)
                selected_tense
                (unit_cefr current_item)
                (session_annotator_id st)
                notes
                (unit_text_corrected current_item)
                (unit_learner_id current_item) of
           (True, s', msgs) \<Rightarrow> (s', msgs @ [Success_annotation_saved])
         | (False, s', msgs) \<Rightarrow> (s', msgs))
      else (s, [Error_select_valid_tense]))"

text \<open>
  The main content of the annotator page (lines 398-540) for one run: the selection of
  the select box, the notes, and which of the three form buttons was pressed. The
  result is the session state, the store and the messages of the run.
\<close>

definition main_content ::
  "(annotation_record \<Rightarrow> bool) \<Rightarrow> string \<Rightarrow> string \<Rightarrow> string \<Rightarrow> bool \<Rightarrow> bool \<Rightarrow> bool
     \<Rightarrow> session_state \<Rightarrow> store \<Rightarrow> py_error + (session_state \<times> store \<times> message list)" where
  "main_content accepts now selected notes save_button next_button prev_button st s =
     (case filtered_data st of
        None \<Rightarrow> Inr (st, s, [])
      | Some data \<Rightarrow>
          if data = [] then Inr (st, s, [])
          else
            (case getitem data (current_index st) of
               Inl e \<Rightarrow> Inl e
             | Inr current_item \<Rightarrow>
                 (let selected_tense = skip_header selected;
                      warning = (if selected_tense = [] then [Warning_select_tense] else [])
                  in if save_button \<or> next_button \<or> prev_button
                     then
                       (case save_step accepts now st s current_item selected_tense notes of
                          (s', msgs) \<Rightarrow>
                            Inr (navigate next_button prev_button data st, s', warning @ msgs))
                     else Inr (st, s, warning))))"

section \<open>Properties of the segmenter\<close>

lemma strip_decomp: "\<exists>l r. whitespace l \<and> whitespace r \<and> s = l @ strip s @ r"
proof -
  let ?l = "takeWhile isspace s"
  let ?m = "dropWhile isspace s"
  let ?r = "rev (takeWhile isspace (rev ?m))"
  have "strip s @ ?r = rev (takeWhile isspace (rev ?m) @ dropWhile isspace (rev ?m))"
    unfolding strip_def by (simp only: rev_append)
  also have "\<dots> = ?m"
    by (simp only: takeWhile_dropWhile_id rev_rev_ident)
  finally have m: "?m = strip s @ ?r" by (rule sym)
  have "s = ?l @ ?m" by simp
  with m have "s = ?l @ strip s @ ?r" by simp
  moreover have "whitespace ?l" unfolding whitespace_def list_all_iff
    by (auto dest: set_takeWhileD)
  moreover have "whitespace ?r" unfolding whitespace_def list_all_iff
    by (auto dest: set_takeWhileD)
  ultimately show ?thesis by blast
qed

lemma split_loop_chunks:
  "\<exists>cs cur'. split_loop t S cur = (S @ map strip cs, cur') \<and> concat cs @ cur' = cur @ t"
proof (induction t arbitrary: S cur)
  case Nil
  show ?case by (rule exI[of _ "[]"]) simp
next
  case (Cons c t)
  show ?case
  proof (cases "terminal c")
    case True
    from Cons.IH[of "S @ [strip (cur @ [c])]" "[]"]
    obtain cs cur' where h: "split_loop t (S @ [strip (cur @ [c])]) [] = ((S @ [strip (cur @ [c])]) @ map strip cs, cur')"
      "concat cs @ cur' = [] @ t" by blast
    show ?thesis
      apply (rule exI[of _ "(cur @ [c]) # cs"], rule exI[of _ cur'])
      using h True by simp
  next
    case False
    from Cons.IH[of S "cur @ [c]"]
    obtain cs cur' where h: "split_loop t S (cur @ [c]) = (S @ map strip cs, cur')"
      "concat cs @ cur' = (cur @ [c]) @ t" by blast
    show ?thesis
      apply (rule exI[of _ cs], rule exI[of _ cur'])
      using h False by simp
  qed
qed

lemma split_chunks: "\<exists>cs. split_into_sentences t = map strip cs \<and> concat cs = t"
proof -
  from split_loop_chunks[of t "[]" "[]"]
  obtain cs cur' where h: "split_loop t [] [] = (map strip cs, cur')" "concat cs @ cur' = t"
    by auto
  show ?thesis
  proof (cases "cur' = []")
    case True
    with h show ?thesis by (intro exI[of _ cs]) (simp add: split_into_sentences_def)
  next
    case False
    with h show ?thesis by (intro exI[of _ "cs @ [cur']"]) (simp add: split_into_sentences_def)
  qed
qed

lemma reinsert_chunks:
  "\<exists>pads. length pads = length cs \<and> paddings_ok pads \<and> reinsert pads (map strip cs) = concat cs"
proof (induction cs)
  case Nil
  show ?case by (rule exI[of _ "[]"]) (simp add: paddings_ok_def reinsert_def)
next
  case (Cons c cs)
  then obtain pads where p: "length pads = length cs" "paddings_ok pads"
    "reinsert pads (map strip cs) = concat cs" by blast
  obtain l r where lr: "whitespace l" "whitespace r" "c = l @ strip c @ r"
    using strip_decomp by blast
  show ?case
    apply (rule exI[of _ "(l, r) # pads"])
    using p lr by (simp add: paddings_ok_def reinsert_def)
qed

lemma split_loop_no_terminal:
  "filter terminal t = [] \<Longrightarrow> split_loop t S cur = (S, cur @ t)"
  by (induction t arbitrary: cur) (auto split: if_splits)

lemma split_no_terminal:
  assumes "t \<noteq> []" "filter terminal t = []"
  shows "split_into_sentences t = [strip t]"
  using assms by (simp add: split_into_sentences_def split_loop_no_terminal)

lemma split_example: "split_into_sentences ''I go. He ran!'' = [''I go.'', ''He ran!'']"
  by (simp add: split_into_sentences_def strip_def isspace_def terminal_def)

text \<open>
  Claim C6. For every text, putting the whitespace that \<^const>\<open>strip\<close> removed back around
  the produced sentences and concatenating gives the text again; a non-empty text
  without \<^verbatim>\<open>.\<close>, \<^verbatim>\<open>!\<close> or \<^verbatim>\<open>?\<close> yields exactly one sentence; and the text
  \<^verbatim>\<open>I go. He ran!\<close> yields the two sentences \<^verbatim>\<open>I go.\<close> and \<^verbatim>\<open>He ran!\<close>.
\<close>

theorem C6_segmentation:
  "(\<exists>pads. length pads = length (split_into_sentences t) \<and> paddings_ok pads
       \<and> reinsert pads (split_into_sentences t) = t)
   \<and> (t \<noteq> [] \<and> filter terminal t = [] \<longrightarrow> length (split_into_sentences t) = 1)
   \<and> split_into_sentences ''I go. He ran!'' = [''I go.'', ''He ran!'']"
proof (intro conjI impI)
  obtain cs where cs: "split_into_sentences t = map strip cs" "concat cs = t"
    using split_chunks by blast
  obtain pads where "length pads = length cs" "paddings_ok pads"
    "reinsert pads (map strip cs) = concat cs"
    using reinsert_chunks by blast
  with cs show "\<exists>pads. length pads = length (split_into_sentences t) \<and> paddings_ok pads
       \<and> reinsert pads (split_into_sentences t) = t"
    by (intro exI[of _ pads]) simp
next
  assume "t \<noteq> [] \<and> filter terminal t = []"
  then show "length (split_into_sentences t) = 1"
    by (simp add: split_no_terminal)
next
  show "split_into_sentences ''I go. He ran!'' = [''I go.'', ''He ran!'']"
    by (rule split_example)
qed

text \<open>The second part of C6 at the text \<^verbatim>\<open>So it goes\<close>.\<close>

theorem C6_segmentation_witness:
  "(\<exists>pads. length pads = length (split_into_sentences ''So it goes'') \<and> paddings_ok pads
       \<and> reinsert pads (split_into_sentences ''So it goes'') = ''So it goes'')
   \<and> ''So it goes'' \<noteq> [] \<and> filter terminal ''So it goes'' = []
   \<and> length (split_into_sentences ''So it goes'') = 1"
proof -
  have h: "''So it goes'' \<noteq> [] \<and> filter terminal ''So it goes'' = []"
    by (simp add: terminal_def)
  with C6_segmentation [of "''So it goes''"] show ?thesis by blast
qed

section \<open>Properties of the unit builder\<close>

lemma append_units_eq:
  "append_units row idx sentences processed_data =
     processed_data @
     map (\<lambda>i. \<lparr>unit_text_corrected = row_text_corrected row,
                unit_sentence = sentences ! (i - idx),
                unit_sentence_index = i,
                unit_cefr = row_cefr row,
                unit_learner_id = row_learner_id row\<rparr>)
       [idx..<idx + length sentences]"
proof (induction sentences arbitrary: idx processed_data)
  case Nil
  show ?case by simp
next
  case (Cons s sentences)
  have shift: "\<And>i. i \<in> set [Suc idx..<Suc idx + length sentences] \<Longrightarrow>
      sentences ! (i - Suc idx) = (s # sentences) ! (i - idx)"
  proof -
    fix i
    assume "i \<in> set [Suc idx..<Suc idx + length sentences]"
    then have "i - idx = Suc (i - Suc idx)" by auto
    then show "sentences ! (i - Suc idx) = (s # sentences) ! (i - idx)" by simp
  qed
  have lt: "idx < idx + length (s # sentences)" by simp
  have bound: "idx + length (s # sentences) = Suc idx + length sentences" by simp
  have range: "[idx..<idx + length (s # sentences)] = idx # [Suc idx..<Suc idx + length sentences]"
    using upt_conv_Cons [OF lt] by (simp only: bound)
  show ?case
    unfolding range append_units.simps Cons.IH
    using shift by simp
qed

lemma append_units_row:
  "append_units row 0 (split_into_sentences (row_text_corrected row)) processed_data =
     processed_data @ units_of_row row"
  by (simp add: append_units_eq units_of_row_def)

lemma process_rows_eq:
  "process_rows rows processed_data = processed_data @ concat (map units_of_row rows)"
  by (induction rows arbitrary: processed_data) (simp_all add: append_units_row)

lemma build_worklist_eq: "build_worklist rows = concat (map units_of_row rows)"
  by (simp add: build_worklist_def process_rows_eq)

lemma units_of_row_sentences:
  "map unit_sentence (units_of_row row) = split_into_sentences (row_text_corrected row)"
  by (simp add: units_of_row_def o_def map_nth)

lemma units_of_row_indices:
  "map unit_sentence_index (units_of_row row) =
     [0..<length (split_into_sentences (row_text_corrected row))]"
  by (simp add: units_of_row_def o_def)

lemma length_concat_units:
  "length (concat (map units_of_row rows)) =
     sum_list (map (\<lambda>row. length (split_into_sentences (row_text_corrected row))) rows)"
  by (induction rows) (simp_all add: units_of_row_def)

text \<open>
  Claim C8. The worklist is the concatenation, in row order, of the units of each row;
  the units of a row carry the row's sentences in order, with the indices
  \<open>0, \<dots>, k - 1\<close> for \<open>k\<close> sentences and the row's own text, level and learner; the
  length of the worklist is the sum of the rows' sentence counts; and a row that
  occurs twice contributes its units twice.
\<close>

theorem C8_unit_building:
  "build_worklist rows = concat (map units_of_row rows)
   \<and> map unit_sentence (units_of_row row) = split_into_sentences (row_text_corrected row)
   \<and> map unit_sentence_index (units_of_row row) =
       [0..<length (split_into_sentences (row_text_corrected row))]
   \<and> map unit_text_corrected (units_of_row row) =
       replicate (length (split_into_sentences (row_text_corrected row))) (row_text_corrected row)
   \<and> map unit_cefr (units_of_row row) =
       replicate (length (split_into_sentences (row_text_corrected row))) (row_cefr row)
   \<and> map unit_learner_id (units_of_row row) =
       replicate (length (split_into_sentences (row_text_corrected row))) (row_learner_id row)
   \<and> length (build_worklist rows) =
       sum_list (map (\<lambda>row. length (split_into_sentences (row_text_corrected row))) rows)
   \<and> build_worklist (rows @ [row, row]) =
       build_worklist rows @ units_of_row row @ units_of_row row"
proof -
  have "map unit_text_corrected (units_of_row row) =
       replicate (length (split_into_sentences (row_text_corrected row))) (row_text_corrected row)"
    by (simp add: units_of_row_def o_def map_replicate_const)
  moreover have "map unit_cefr (units_of_row row) =
       replicate (length (split_into_sentences (row_text_corrected row))) (row_cefr row)"
    by (simp add: units_of_row_def o_def map_replicate_const)
  moreover have "map unit_learner_id (units_of_row row) =
       replicate (length (split_into_sentences (row_text_corrected row))) (row_learner_id row)"
    by (simp add: units_of_row_def o_def map_replicate_const)
  moreover have "build_worklist (rows @ [row, row]) =
       build_worklist rows @ units_of_row row @ units_of_row row"
    by (simp add: build_worklist_eq)
  ultimately show ?thesis
    using build_worklist_eq units_of_row_sentences units_of_row_indices length_concat_units
    by simp
qed

section \<open>Sentences that are empty\<close>

lemma split_loop_append:
  "split_loop (a @ b) S cur = (case split_loop a S cur of (S', cur') \<Rightarrow> split_loop b S' cur')"
  by (induction a arbitrary: S cur) (simp_all add: Let_def)

lemma isspace_not_terminal: "isspace c \<Longrightarrow> \<not> terminal c"
  by (auto simp: isspace_def terminal_def)

lemma whitespace_no_terminal: "whitespace ws \<Longrightarrow> filter terminal ws = []"
  by (auto simp: whitespace_def list_all_iff filter_empty_conv dest: isspace_not_terminal)

lemma strip_whitespace:
  assumes "whitespace ws"
  shows "strip ws = []"
proof -
  have h: "dropWhile isspace ws = []"
    using assms by (simp add: whitespace_def list_all_iff)
  show ?thesis unfolding strip_def h by simp
qed

lemma split_trailing_whitespace:
  assumes "terminal c" "ws \<noteq> []" "whitespace ws"
  shows "\<exists>S. split_into_sentences (pre @ [c] @ ws) = S @ [[]]"
proof -
  obtain S' cur' where pre: "split_loop pre [] [] = (S', cur')"
    by (cases "split_loop pre [] []") simp
  have step: "split_loop (pre @ c # ws) [] [] = split_loop (c # ws) S' cur'"
    using split_loop_append [of pre "c # ws" "[]" "[]"] pre by simp
  have c: "split_loop (c # ws) S' cur' = split_loop ws (S' @ [strip (cur' @ [c])]) []"
    using assms(1) by simp
  have ws: "split_loop ws (S' @ [strip (cur' @ [c])]) [] = (S' @ [strip (cur' @ [c])], ws)"
    using split_loop_no_terminal [OF whitespace_no_terminal [OF assms(3)]] by simp
  have "split_loop (pre @ [c] @ ws) [] [] = (S' @ [strip (cur' @ [c])], ws)"
    using step c ws by simp
  then have "split_into_sentences (pre @ [c] @ ws) = (S' @ [strip (cur' @ [c])]) @ [[]]"
    using assms(2) strip_whitespace [OF assms(3)] by (simp add: split_into_sentences_def)
  then show ?thesis by blast
qed

lemma split_hi: "split_into_sentences ''Hi. '' = [''Hi.'', []]"
  by (simp add: split_into_sentences_def strip_def isspace_def terminal_def)

text \<open>
  Claim C10. A text that ends in one of \<^verbatim>\<open>.\<close>, \<^verbatim>\<open>!\<close>, \<^verbatim>\<open>?\<close> followed by one or more
  whitespace characters and nothing else is non-empty, and its last sentence is the
  empty string; the worklist built from rows that include a row with such a text has
  a unit whose sentence is empty. The text \<^verbatim>\<open>Hi. \<close> (with its final blank) is such a
  text: its sentences are \<^verbatim>\<open>Hi.\<close> and the empty string.
\<close>

theorem C10_empty_final_sentence:
  assumes "terminal c" and "ws \<noteq> []" and "whitespace ws"
    and "row_text_corrected row = pre @ [c] @ ws" and "row \<in> set rows"
  shows "pre @ [c] @ ws \<noteq> []
    \<and> split_into_sentences (pre @ [c] @ ws) \<noteq> []
    \<and> last (split_into_sentences (pre @ [c] @ ws)) = []
    \<and> [] \<in> unit_sentence ` set (build_worklist rows)
    \<and> split_into_sentences ''Hi. '' = [''Hi.'', []]"
proof -
  obtain S where S: "split_into_sentences (pre @ [c] @ ws) = S @ [[]]"
    using split_trailing_whitespace [OF assms(1-3)] by blast
  have "[] \<in> set (map unit_sentence (units_of_row row))"
    unfolding units_of_row_sentences assms(4) S by simp
  then have "[] \<in> unit_sentence ` set (units_of_row row)" by simp
  moreover have "set (units_of_row row) \<subseteq> set (build_worklist rows)"
    using assms(5) by (auto simp: build_worklist_eq)
  ultimately have "[] \<in> unit_sentence ` set (build_worklist rows)" by blast
  with S split_hi show ?thesis by simp
qed

text \<open>C10 at the row whose text is \<^verbatim>\<open>Hi. \<close>.\<close>

theorem C10_empty_final_sentence_witness:
  "terminal CHR ''.'' \<and> '' '' \<noteq> [] \<and> whitespace '' ''
   \<and> last (split_into_sentences ''Hi. '') = []
   \<and> [] \<in> unit_sentence ` set (build_worklist
        [\<lparr>row_text_corrected = ''Hi. '', row_cefr = ''A1'', row_learner_id = ''L1''\<rparr>])"
proof -
  let ?row = "\<lparr>row_text_corrected = ''Hi. '', row_cefr = ''A1'', row_learner_id = ''L1''\<rparr>"
  have t: "terminal CHR ''.''" by (simp add: terminal_def)
  have n: "'' '' \<noteq> []" by simp
  have w: "whitespace '' ''" by (simp add: whitespace_def isspace_def)
  have r: "row_text_corrected ?row = ''Hi'' @ [CHR ''.''] @ '' ''" by simp
  have m: "?row \<in> set [?row]" by simp
  from C10_empty_final_sentence [OF t n w r m] t n w show ?thesis by simp
qed

section \<open>Properties of the persister\<close>

lemma separator_startswith: "startswith (''------ '' @ category @ '' ------'') ''------''"
  by (simp add: startswith_def)

lemma TENSE_OPTIONS_valid:
  "x \<in> set TENSE_OPTIONS \<Longrightarrow> x \<noteq> [] \<and> \<not> startswith x ''------''"
  by (auto simp: TENSE_OPTIONS_def TENSE_CATEGORIES_def startswith_def)

lemma skip_header_invalid:
  "selected = [] \<or> startswith selected ''------'' \<Longrightarrow> skip_header selected = []"
  by (auto simp: skip_header_def)

lemma skip_header_valid:
  "selected \<noteq> [] \<Longrightarrow> \<not> startswith selected ''------'' \<Longrightarrow> skip_header selected = selected"
  by (simp add: skip_header_def)

lemma getitem_in_range:
  "0 \<le> i \<Longrightarrow> i < int (length data) \<Longrightarrow> getitem data i = Inr (data ! nat i)"
  by (simp add: getitem_def)

lemma save_annotation_store:
  "fst (snd (save_annotation accepts now s text sentence_index tense cefr_level user_id notes
       original_text learner_id)) =
     fst (insert_execute accepts s
       \<lparr>rec_annotator_id = user_id, rec_sentence = text, rec_target_tense = tense,
        rec_notes = notes, rec_cefr_level = cefr_level, rec_original_text = original_text,
        rec_learner_id = learner_id, rec_created_at = now\<rparr>)"
  by (simp add: save_annotation_def insert_execute_def Let_def)

lemma insert_execute_inserts:
  "inserts (fst (insert_execute accepts s data)) = inserts s @ [data]"
  by (simp add: insert_execute_def)

lemma save_step_valid:
  assumes "selected_tense \<noteq> []" and "\<not> startswith selected_tense ''------''"
  shows "save_step accepts now st s current_item selected_tense notes =
     (let data = \<lparr>rec_annotator_id = session_annotator_id st,
                  rec_sentence = unit_sentence current_item,
                  rec_target_tense = selected_tense,
                  rec_notes = notes,
                  rec_cefr_level = unit_cefr current_item,
                  rec_original_text = unit_text_corrected current_item,
                  rec_learner_id = unit_learner_id current_item,
                  rec_created_at = now\<rparr>
      in if accepts data
         then (s\<lparr>inserts := inserts s @ [data], annotations := annotations s @ [data]\<rparr>,
               [Success_annotation_saved])
         else (s\<lparr>inserts := inserts s @ [data]\<rparr>, [Error_saving_annotation]))"
  using assms by (simp add: save_step_def save_annotation_def insert_execute_def Let_def)

text \<open>
  Claim C4. When the selection is empty, or is the separator of a category, or is any
  other string that starts with \<^verbatim>\<open>------\<close>, pressing a form button on a loaded page
  leaves the store exactly as it was (no insert is attempted) and shows the warning and
  the error that ask for a valid tense; the save step itself returns the store unchanged.
\<close>

theorem C4_invalid_tense_no_write:
  assumes "selected = [] \<or> selected = ''------ '' @ category @ '' ------''
             \<or> startswith selected ''------''"
    and "filtered_data st = Some data" and "data \<noteq> []"
    and "0 \<le> current_index st" and "current_index st < int (length data)"
    and "save_button \<or> next_button \<or> prev_button"
  shows "main_content accepts now selected notes save_button next_button prev_button st s =
           Inr (navigate next_button prev_button data st, s,
                [Warning_select_tense, Error_select_valid_tense])
       \<and> save_step accepts now st s current_item (skip_header selected) notes =
           (s, [Error_select_valid_tense])"
proof -
  have "selected = [] \<or> startswith selected ''------''"
    using assms(1) separator_startswith by blast
  then have sel: "skip_header selected = []" by (rule skip_header_invalid)
  have step: "\<And>item. save_step accepts now st s item [] notes = (s, [Error_select_valid_tense])"
    by (simp add: save_step_def)
  have item: "getitem data (current_index st) = Inr (data ! nat (current_index st))"
    using assms(4,5) by (rule getitem_in_range)
  show ?thesis
    using assms(2,3,6) by (simp add: main_content_def item sel step)
qed

text \<open>C4 at the separator of the first category, with the Save button pressed.\<close>

theorem C4_invalid_tense_no_write_witness:
  "main_content (\<lambda>_. True) ''2024-05-01T10:00:00'' ''------ Simple Forms ------'' ''a note''
     True False False
     \<lparr>filtered_data = Some [\<lparr>unit_text_corrected = ''I go.'', unit_sentence = ''I go.'',
          unit_sentence_index = 0, unit_cefr = ''A1'', unit_learner_id = ''L1''\<rparr>],
      current_index = 0, session_annotator_id = ''u1''\<rparr>
     \<lparr>inserts = [], annotations = []\<rparr> =
   Inr (\<lparr>filtered_data = Some [\<lparr>unit_text_corrected = ''I go.'', unit_sentence = ''I go.'',
          unit_sentence_index = 0, unit_cefr = ''A1'', unit_learner_id = ''L1''\<rparr>],
      current_index = 0, session_annotator_id = ''u1''\<rparr>,
     \<lparr>inserts = [], annotations = []\<rparr>,
     [Warning_select_tense, Error_select_valid_tense])"
proof -
  let ?u = "\<lparr>unit_text_corrected = ''I go.'', unit_sentence = ''I go.'',
          unit_sentence_index = 0, unit_cefr = ''A1'', unit_learner_id = ''L1''\<rparr>"
  let ?st = "\<lparr>filtered_data = Some [?u], current_index = 0, session_annotator_id = ''u1''\<rparr>"
  have a: "''------ Simple Forms ------'' = [] \<or>
      ''------ Simple Forms ------'' = ''------ '' @ ''Simple Forms'' @ '' ------'' \<or>
      startswith ''------ Simple Forms ------'' ''------''" by simp
  have b: "filtered_data ?st = Some [?u]" by simp
  have c: "[?u] \<noteq> []" by simp
  have d: "0 \<le> current_index ?st" by simp
  have e: "current_index ?st < int (length [?u])" by simp
  have f: "True \<or> False \<or> False" by simp
  from C4_invalid_tense_no_write [OF a b c d e f] show ?thesis
    by (simp add: navigate_def)
qed

text \<open>
  Claim C5. With a non-empty selection that does not start with \<^verbatim>\<open>------\<close>, the save
  step hands exactly one record to the store's insert, whether or not the store accepts
  it (a refused record is reported and not sent again); \<^verbatim>\<open>save_annotation\<close> builds that
  record from its arguments unchanged: the seven data fields are the arguments and
  \<open>rec_created_at\<close> is the clock reading of the call.
\<close>

theorem C5_one_insert_verbatim:
  assumes "selected_tense \<noteq> []" and "\<not> startswith selected_tense ''------''"
  shows "inserts (fst (snd (save_annotation accepts now s text sentence_index tense
             cefr_level user_id notes original_text learner_id))) =
           inserts s @
           [\<lparr>rec_annotator_id = user_id, rec_sentence = text, rec_target_tense = tense,
             rec_notes = notes, rec_cefr_level = cefr_level,
             rec_original_text = original_text, rec_learner_id = learner_id,
             rec_created_at = now\<rparr>]
       \<and> inserts (fst (save_step accepts now st s current_item selected_tense notes)) =
           inserts s @
           [\<lparr>rec_annotator_id = session_annotator_id st,
             rec_sentence = unit_sentence current_item,
             rec_target_tense = selected_tense,
             rec_notes = notes,
             rec_cefr_level = unit_cefr current_item,
             rec_original_text = unit_text_corrected current_item,
             rec_learner_id = unit_learner_id current_item,
             rec_created_at = now\<rparr>]
       \<and> length (inserts (fst (save_step accepts now st s current_item selected_tense notes))) =
           Suc (length (inserts s))
       \<and> snd (save_step (\<lambda>_. False) now st s current_item selected_tense notes) =
           [Error_saving_annotation]
       \<and> annotations (fst (save_step (\<lambda>_. False) now st s current_item selected_tense notes)) =
           annotations s
       \<and> snd (save_step (\<lambda>_. True) now st s current_item selected_tense notes) =
           [Success_annotation_saved]"
proof -
  have "inserts (fst (snd (save_annotation accepts now s text sentence_index tense
             cefr_level user_id notes original_text learner_id))) =
           inserts s @
           [\<lparr>rec_annotator_id = user_id, rec_sentence = text, rec_target_tense = tense,
             rec_notes = notes, rec_cefr_level = cefr_level,
             rec_original_text = original_text, rec_learner_id = learner_id,
             rec_created_at = now\<rparr>]"
    by (simp only: save_annotation_store insert_execute_inserts)
  then show ?thesis
    by (simp add: save_step_valid [OF assms] Let_def)
qed

text \<open>C5 at the tense \<^verbatim>\<open>Past Simple\<close> with a store that refuses the record.\<close>

theorem C5_one_insert_verbatim_witness:
  "''Past Simple'' \<noteq> [] \<and> \<not> startswith ''Past Simple'' ''------''
   \<and> inserts (fst (save_step (\<lambda>_. False) ''2024-05-01T10:00:00''
        \<lparr>filtered_data = None, current_index = 0, session_annotator_id = ''u1''\<rparr>
        \<lparr>inserts = [], annotations = []\<rparr>
        \<lparr>unit_text_corrected = ''I went. I saw.'', unit_sentence = ''I saw.'',
          unit_sentence_index = 1, unit_cefr = ''A2'', unit_learner_id = ''L7''\<rparr>
        ''Past Simple'' ''regular'')) =
       [\<lparr>rec_annotator_id = ''u1'', rec_sentence = ''I saw.'',
         rec_target_tense = ''Past Simple'', rec_notes = ''regular'',
         rec_cefr_level = ''A2'', rec_original_text = ''I went. I saw.'',
         rec_learner_id = ''L7'', rec_created_at = ''2024-05-01T10:00:00''\<rparr>]"
proof -
  have a: "''Past Simple'' \<noteq> []" by simp
  have b: "\<not> startswith ''Past Simple'' ''------''" by (simp add: startswith_def)
  from C5_one_insert_verbatim [OF a b, of "\<lambda>_. False" "''2024-05-01T10:00:00''"
      "\<lparr>inserts = [], annotations = []\<rparr>" _ _ _ _ _ "''regular''" _ _
      "\<lparr>filtered_data = None, current_index = 0, session_annotator_id = ''u1''\<rparr>"
      "\<lparr>unit_text_corrected = ''I went. I saw.'', unit_sentence = ''I saw.'',
          unit_sentence_index = 1, unit_cefr = ''A2'', unit_learner_id = ''L7''\<rparr>"]
  show ?thesis using a b by simp
qed

text \<open>
  Claim C9. \<^verbatim>\<open>save_annotation\<close> does not depend on its \<^verbatim>\<open>sentence_index\<close> argument:
  two calls that differ only there return the same flag, store and messages; and even
  with different clock readings and store behaviour the records handed to the store
  agree once the time stamp is set aside.
\<close>

theorem C9_sentence_index_unused:
  "save_annotation accepts now s text i tense cefr_level user_id notes original_text learner_id =
   save_annotation accepts now s text j tense cefr_level user_id notes original_text learner_id
   \<and> map (rec_created_at_update (\<lambda>_. []))
       (inserts (fst (snd (save_annotation accepts now s text i tense cefr_level user_id notes
          original_text learner_id)))) =
     map (rec_created_at_update (\<lambda>_. []))
       (inserts (fst (snd (save_annotation accepts' now' s text j tense cefr_level user_id notes
          original_text learner_id))))"
proof
  show "save_annotation accepts now s text i tense cefr_level user_id notes original_text
      learner_id =
    save_annotation accepts now s text j tense cefr_level user_id notes original_text learner_id"
    by (simp add: save_annotation_def)
next
  show "map (rec_created_at_update (\<lambda>_. []))
       (inserts (fst (snd (save_annotation accepts now s text i tense cefr_level user_id notes
          original_text learner_id)))) =
     map (rec_created_at_update (\<lambda>_. []))
       (inserts (fst (snd (save_annotation accepts' now' s text j tense cefr_level user_id notes
          original_text learner_id))))"
    by (simp only: save_annotation_store insert_execute_inserts) simp
qed

section \<open>Properties of the navigator\<close>

lemma navigate_worklist: "filtered_data (navigate next_button prev_button data st) = filtered_data st"
  by (simp add: navigate_def)

lemma navigate_in_range:
  assumes "0 \<le> current_index st" and "current_index st < int (length data)"
  shows "0 \<le> current_index (navigate next_button prev_button data st)
    \<and> current_index (navigate next_button prev_button data st) < int (length data)"
  using assms by (auto simp: navigate_def)

lemma main_content_loaded:
  assumes "filtered_data st = Some data" and "data \<noteq> []"
    and "0 \<le> current_index st" and "current_index st < int (length data)"
  shows "\<exists>s' msgs.
     main_content accepts now selected notes save_button next_button prev_button st s =
       Inr (if save_button \<or> next_button \<or> prev_button
            then navigate next_button prev_button data st else st, s', msgs)"
proof -
  have item: "getitem data (current_index st) = Inr (data ! nat (current_index st))"
    using assms(3,4) by (rule getitem_in_range)
  obtain s' msgs where step:
    "save_step accepts now st s (data ! nat (current_index st)) (skip_header selected) notes =
       (s', msgs)"
    by (cases "save_step accepts now st s (data ! nat (current_index st))
        (skip_header selected) notes") simp
  show ?thesis
    using assms(1,2) by (simp add: main_content_def item step Let_def)
qed

text \<open>
  Claim C7. In a session whose worklist \<open>data\<close> is non-empty and whose cursor \<open>i\<close> is in
  range, pressing Next leaves the cursor at \<open>min (i + 1) (len - 1)\<close> and pressing
  Previous leaves it at \<open>max (i - 1) 0\<close>; whatever buttons are pressed the cursor stays
  in range and the worklist is unchanged, and the run of the page raises no error;
  loading a worklist sets the cursor to 0, which is in range when that worklist is
  non-empty.
\<close>

theorem C7_navigation:
  assumes "filtered_data st = Some data" and "data \<noteq> []"
    and "0 \<le> current_index st" and "current_index st < int (length data)"
  shows "current_index (navigate True False data st) =
           min (current_index st + 1) (int (length data) - 1)
       \<and> current_index (navigate False True data st) = max (current_index st - 1) 0
       \<and> 0 \<le> current_index (navigate next_button prev_button data st)
       \<and> current_index (navigate next_button prev_button data st) < int (length data)
       \<and> filtered_data (navigate next_button prev_button data st) = Some data
       \<and> cursor_ok (navigate next_button prev_button data st)
       \<and> (\<exists>s' msgs.
            main_content accepts now selected notes save_button next_button prev_button st s =
              Inr (if save_button \<or> next_button \<or> prev_button
                   then navigate next_button prev_button data st else st, s', msgs))
       \<and> current_index (load worklist st) = 0
       \<and> filtered_data (load worklist st) = Some worklist
       \<and> cursor_ok (load worklist st)"
proof -
  have n: "current_index (navigate True False data st) =
           min (current_index st + 1) (int (length data) - 1)"
    using assms(4) by (simp add: navigate_def)
  have p: "current_index (navigate False True data st) = max (current_index st - 1) 0"
    using assms(3) by (simp add: navigate_def)
  note r = navigate_in_range [OF assms(3,4), of next_button prev_button]
  have w: "filtered_data (navigate next_button prev_button data st) = Some data"
    using assms(1) by (simp add: navigate_worklist)
  have c: "cursor_ok (navigate next_button prev_button data st)"
    using r w assms(2) by (simp add: cursor_ok_def)
  note m = main_content_loaded [OF assms]
  have l: "current_index (load worklist st) = 0 \<and> filtered_data (load worklist st) = Some worklist
      \<and> cursor_ok (load worklist st)"
    by (simp add: load_def cursor_ok_def)
  from n p r w c m l show ?thesis by blast
qed

text \<open>C7 on a worklist of two units with the cursor at the last one.\<close>

theorem C7_navigation_witness:
  "current_index (navigate True False
      [\<lparr>unit_text_corrected = ''I go. He ran!'', unit_sentence = ''I go.'',
         unit_sentence_index = 0, unit_cefr = ''A1'', unit_learner_id = ''L1''\<rparr>,
       \<lparr>unit_text_corrected = ''I go. He ran!'', unit_sentence = ''He ran!'',
         unit_sentence_index = 1, unit_cefr = ''A1'', unit_learner_id = ''L1''\<rparr>]
      \<lparr>filtered_data = Some
         [\<lparr>unit_text_corrected = ''I go. He ran!'', unit_sentence = ''I go.'',
            unit_sentence_index = 0, unit_cefr = ''A1'', unit_learner_id = ''L1''\<rparr>,
          \<lparr>unit_text_corrected = ''I go. He ran!'', unit_sentence = ''He ran!'',
            unit_sentence_index = 1, unit_cefr = ''A1'', unit_learner_id = ''L1''\<rparr>],
        current_index = 1, session_annotator_id = ''u1''\<rparr>) = 1
   \<and> current_index (navigate False True
      [\<lparr>unit_text_corrected = ''I go. He ran!'', unit_sentence = ''I go.'',
         unit_sentence_index = 0, unit_cefr = ''A1'', unit_learner_id = ''L1''\<rparr>,
       \<lparr>unit_text_corrected = ''I go. He ran!'', unit_sentence = ''He ran!'',
         unit_sentence_index = 1, unit_cefr = ''A1'', unit_learner_id = ''L1''\<rparr>]
      \<lparr>filtered_data = Some
         [\<lparr>unit_text_corrected = ''I go. He ran!'', unit_sentence = ''I go.'',
            unit_sentence_index = 0, unit_cefr = ''A1'', unit_learner_id = ''L1''\<rparr>,
          \<lparr>unit_text_corrected = ''I go. He ran!'', unit_sentence = ''He ran!'',
            unit_sentence_index = 1, unit_cefr = ''A1'', unit_learner_id = ''L1''\<rparr>],
        current_index = 1, session_annotator_id = ''u1''\<rparr>) = 0"
proof -
  let ?d = "[\<lparr>unit_text_corrected = ''I go. He ran!'', unit_sentence = ''I go.'',
         unit_sentence_index = 0, unit_cefr = ''A1'', unit_learner_id = ''L1''\<rparr>,
       \<lparr>unit_text_corrected = ''I go. He ran!'', unit_sentence = ''He ran!'',
         unit_sentence_index = 1, unit_cefr = ''A1'', unit_learner_id = ''L1''\<rparr>]"
  let ?st = "\<lparr>filtered_data = Some ?d, current_index = 1, session_annotator_id = ''u1''\<rparr>"
  have a: "filtered_data ?st = Some ?d" by simp
  have b: "?d \<noteq> []" by simp
  have c: "0 \<le> current_index ?st" by simp
  have d: "current_index ?st < int (length ?d)" by simp
  from C7_navigation [OF a b c d] show ?thesis by simp
qed

text \<open>
  Claim C3, as the code has it. A zero-length worklist is not rejected: when the sample
  yields no unit, the Load Data handler stores the empty worklist with cursor 0 and
  reports success. The page then treats the empty worklist like none: it is not
  \<open>loaded\<close>, and a run of the main content changes nothing and shows nothing.
\<close>

theorem C3_empty_worklist_installed:
  assumes "cefr_level \<noteq> []"
    and "sample_level rng rows cefr_level sample_size = Inr sampled"
    and "build_worklist sampled = []"
  shows "load_data_button rng (Some rows) cefr_level sample_size st =
           Inr (load [] st, [Success_data_loaded])
       \<and> filtered_data (load [] st) = Some []
       \<and> current_index (load [] st) = 0
       \<and> \<not> loaded (load [] st)
       \<and> main_content accepts now selected notes save_button next_button prev_button
           (load [] st) s = Inr (load [] st, s, [])"
  using assms by (simp add: load_data_button_def load_def loaded_def main_content_def)

text \<open>C3 on the empty corpus.\<close>

theorem C3_empty_worklist_installed_witness:
  "''A1'' \<noteq> [] \<and> sample_level (\<lambda>m. [0..<m]) [] ''A1'' 200 = Inr []
   \<and> build_worklist [] = []
   \<and> load_data_button (\<lambda>m. [0..<m]) (Some []) ''A1'' 200
        \<lparr>filtered_data = None, current_index = 0, session_annotator_id = ''u1''\<rparr> =
       Inr (load [] \<lparr>filtered_data = None, current_index = 0, session_annotator_id = ''u1''\<rparr>,
            [Success_data_loaded])
   \<and> \<not> loaded (load [] \<lparr>filtered_data = None, current_index = 0, session_annotator_id = ''u1''\<rparr>)"
proof -
  have a: "''A1'' \<noteq> []" by simp
  have b: "sample_level (\<lambda>m. [0..<m]) [] ''A1'' 200 = Inr []"
    by (simp add: sample_level_def sample_def)
  have c: "build_worklist [] = []" by (simp add: build_worklist_def)
  from C3_empty_worklist_installed [OF a b c] a b c show ?thesis by simp
qed

text \<open>
  The claim C3 as stated fails on the empty corpus: loading in a fresh session succeeds
  and stores the empty list as the session's worklist.
\<close>

theorem C3_counterexample:
  "load_data_button (\<lambda>m. [0..<m]) (Some []) ''A1'' 200
     \<lparr>filtered_data = None, current_index = 0, session_annotator_id = ''u1''\<rparr> =
   Inr (\<lparr>filtered_data = Some [], current_index = 0, session_annotator_id = ''u1''\<rparr>,
        [Success_data_loaded])"
  by (simp add: load_data_button_def sample_level_def sample_def build_worklist_def load_def)

section \<open>Properties of the sampler\<close>

lemma rng_ok_length: "rng_ok rng m \<Longrightarrow> length (rng m) = m"
  using distinct_card [of "rng m"] by (simp add: rng_ok_def)

text \<open>Where the sampler returns: as long as the requested number does not exceed the
  number of rows at the level, it returns that many rows, all of them of the level.\<close>

lemma sample_level_returns:
  assumes "rng_ok rng (length (filter (\<lambda>row. row_cefr row = cefr_level) df))"
    and "0 \<le> sample_size"
    and "min sample_size (int (length df)) \<le>
           int (length (filter (\<lambda>row. row_cefr row = cefr_level) df))"
  shows "\<exists>subset. sample_level rng df cefr_level sample_size = Inr subset
     \<and> int (length subset) = min sample_size (int (length df))
     \<and> list_all (\<lambda>row. row_cefr row = cefr_level) subset"
proof -
  define xs where "xs = filter (\<lambda>row. row_cefr row = cefr_level) df"
  define n where "n = min sample_size (int (length df))"
  define idx where "idx = take (nat n) (rng (length xs))"
  have n0: "0 \<le> n" using assms(2) by (simp add: n_def)
  have nle: "n \<le> int (length xs)" using assms(3) by (simp add: n_def xs_def)
  have ok: "rng_ok rng (length xs)" using assms(1) by (simp add: xs_def)
  have "sample rng n xs = Inr (map (\<lambda>i. xs ! i) idx)"
    using n0 nle by (simp add: sample_def idx_def)
  then have eq: "sample_level rng df cefr_level sample_size = Inr (map (\<lambda>i. xs ! i) idx)"
    by (simp add: sample_level_def n_def xs_def)
  have "length idx = nat n"
    using nle n0 rng_ok_length [OF ok] by (simp add: idx_def)
  then have len: "int (length (map (\<lambda>i. xs ! i) idx)) = n"
    using n0 by simp
  have "\<And>i. i \<in> set idx \<Longrightarrow> i < length xs"
  proof -
    fix i assume "i \<in> set idx"
    then have "i \<in> set (rng (length xs))" unfolding idx_def by (rule in_set_takeD)
    then show "i < length xs" using ok by (simp add: rng_ok_def)
  qed
  then have "\<And>i. i \<in> set idx \<Longrightarrow> xs ! i \<in> set xs" by simp
  then have "\<And>i. i \<in> set idx \<Longrightarrow> row_cefr (xs ! i) = cefr_level"
    by (simp add: xs_def)
  then have "list_all (\<lambda>row. row_cefr row = cefr_level) (map (\<lambda>i. xs ! i) idx)"
    by (simp add: list_all_iff)
  with eq len show ?thesis unfolding n_def by blast
qed

text \<open>
  Claim C1 fails in the code. The requested number is clamped with the length of the
  whole corpus, not with the number of rows at the level, so a request above the number
  of rows at the level is passed on to \<^verbatim>\<open>sample\<close>, which raises. On a corpus of one
  \<^verbatim>\<open>A1\<close> row and one \<^verbatim>\<open>B1\<close> row, sampling two \<^verbatim>\<open>A1\<close> rows raises \<^verbatim>\<open>ValueError\<close>
  where the claim expects the one \<^verbatim>\<open>A1\<close> row.
\<close>

theorem C1_sample_raises:
  "sample_level rng
     [\<lparr>row_text_corrected = ''I go.'', row_cefr = ''A1'', row_learner_id = ''L1''\<rparr>,
      \<lparr>row_text_corrected = ''He ran!'', row_cefr = ''B1'', row_learner_id = ''L2''\<rparr>]
     ''A1'' 2 = Inl ValueError
   \<and> load_data_button rng (Some
     [\<lparr>row_text_corrected = ''I go.'', row_cefr = ''A1'', row_learner_id = ''L1''\<rparr>,
      \<lparr>row_text_corrected = ''He ran!'', row_cefr = ''B1'', row_learner_id = ''L2''\<rparr>])
     ''A1'' 2 st = Inl ValueError"
  by (simp add: load_data_button_def sample_level_def sample_def)

text \<open>
  Claim C2, as the code has it. The code has no check for a level without rows. When no
  row of the corpus is at the requested level, either \<^verbatim>\<open>sample\<close> raises its own
  \<^verbatim>\<open>ValueError\<close>, which the handler does not catch (the run ends with the session
  state as it was), or it returns the empty sample, and the handler then stores an empty
  worklist and reports success.
\<close>

theorem C2_no_matching_rows:
  assumes "filter (\<lambda>row. row_cefr row = cefr_level) rows = []" and "cefr_level \<noteq> []"
  shows "(case sample_level rng rows cefr_level sample_size of
            Inl e \<Rightarrow>
              e = ValueError
              \<and> load_data_button rng (Some rows) cefr_level sample_size st = Inl ValueError
          | Inr sampled \<Rightarrow>
              sampled = []
              \<and> load_data_button rng (Some rows) cefr_level sample_size st =
                  Inr (load [] st, [Success_data_loaded]))"
  using assms
  by (simp add: load_data_button_def sample_level_def sample_def build_worklist_def)

text \<open>C2 on a corpus with one \<^verbatim>\<open>B1\<close> row, for level \<^verbatim>\<open>A1\<close>.\<close>

theorem C2_no_matching_rows_witness:
  "filter (\<lambda>row. row_cefr row = ''A1'')
     [\<lparr>row_text_corrected = ''He ran!'', row_cefr = ''B1'', row_learner_id = ''L2''\<rparr>] = []
   \<and> ''A1'' \<noteq> []
   \<and> load_data_button (\<lambda>m. [0..<m])
       (Some [\<lparr>row_text_corrected = ''He ran!'', row_cefr = ''B1'', row_learner_id = ''L2''\<rparr>])
       ''A1'' 200
       \<lparr>filtered_data = None, current_index = 0, session_annotator_id = ''u1''\<rparr> =
      Inl ValueError"
proof -
  let ?rows = "[\<lparr>row_text_corrected = ''He ran!'', row_cefr = ''B1'', row_learner_id = ''L2''\<rparr>]"
  have a: "filter (\<lambda>row. row_cefr row = ''A1'') ?rows = []" by simp
  have b: "''A1'' \<noteq> []" by simp
  have c: "sample_level (\<lambda>m. [0..<m]) ?rows ''A1'' 200 = Inl ValueError"
    by (simp add: sample_level_def sample_def)
  from C2_no_matching_rows [OF a b, of "\<lambda>m. [0..<m]" 200
      "\<lparr>filtered_data = None, current_index = 0, session_annotator_id = ''u1''\<rparr>"]
  show ?thesis using a b by (simp add: c)
qed

text \<open>
  The claim C2 as stated fails on the empty corpus: no row is at level \<^verbatim>\<open>A1\<close>, and
  sampling returns (the empty sample) instead of failing.
\<close>

theorem C2_counterexample:
  "filter (\<lambda>row. row_cefr row = ''A1'') ([] :: corpus_row list) = []
   \<and> sample_level (\<lambda>m. [0..<m]) [] ''A1'' 200 = Inr []"
  by (simp add: sample_level_def sample_def)

end
